theory Spec2Isabelle
  imports Main "HOL-Library.AList"
begin

section \<open>JavaScript values\<close>

text \<open>
  The cache layer of \<^verbatim>\<open>lib/index.js\<close> stores and returns JavaScript values. The
  fragment modelled here: \<^verbatim>\<open>undefined\<close>, \<^verbatim>\<open>null\<close>, booleans, numbers that are
  integers (printed by JavaScript in plain decimal), BigInts, strings of 8-bit code
  units, arrays, plain objects (association lists, in the order of their keys) and
  functions (known by their source text, which is what \<^verbatim>\<open>toString\<close> gives).
  Fractions, \<^verbatim>\<open>NaN\<close>, the infinities, negative zero and the rounding of doubles are
  outside the model.
\<close>

datatype jsval =
    JUndefined
  | JNull
  | JBool bool
  | JNum int
  | JBigInt int
  | JStr string
  | JArr "jsval list"
  | JObj "(string \<times> jsval) list"
  | JFun string

fun typeof :: "jsval \<Rightarrow> string" where
  "typeof JUndefined = ''undefined''"
| "typeof JNull = ''object''"
| "typeof (JBool b) = ''boolean''"
| "typeof (JNum n) = ''number''"
| "typeof (JBigInt n) = ''bigint''"
| "typeof (JStr s) = ''string''"
| "typeof (JArr xs) = ''object''"
| "typeof (JObj kvs) = ''object''"
| "typeof (JFun src) = ''function''"

text \<open>The truth value of a condition such as \<^verbatim>\<open>if (err)\<close>.\<close>

definition truthy :: "jsval \<Rightarrow> bool" where
  "truthy v \<longleftrightarrow>
     \<not> (v = JUndefined \<or> v = JNull \<or> v = JBool False \<or> v = JNum 0 \<or> v = JBigInt 0 \<or> v = JStr [])"

subsection \<open>Conversion to strings\<close>

fun digits :: "nat \<Rightarrow> string" where
  "digits n =
     (if n < 10 then [char_of (48 + n)]
      else digits (n div 10) @ [char_of (48 + n mod 10)])"

declare digits.simps [simp del]

definition int_toString :: "int \<Rightarrow> string" where
  "int_toString n = (if n < 0 then CHR ''-'' # digits (nat (- n)) else digits (nat n))"

fun join :: "string \<Rightarrow> string list \<Rightarrow> string" where
  "join sep [] = []"
| "join sep [x] = x"
| "join sep (x # y # ys) = x @ sep @ join sep (y # ys)"

text \<open>
  \<^verbatim>\<open>value.toString()\<close>, and the conversion a template literal or \<^verbatim>\<open>JSON.parse\<close>
  applies to its argument. An array joins its elements with commas, \<^verbatim>\<open>null\<close> and
  \<^verbatim>\<open>undefined\<close> elements giving the empty string.
\<close>

fun toString :: "jsval \<Rightarrow> string" and toString_elems :: "jsval list \<Rightarrow> string list" where
  "toString JUndefined = ''undefined''"
| "toString JNull = ''null''"
| "toString (JBool b) = (if b then ''true'' else ''false'')"
| "toString (JNum n) = int_toString n"
| "toString (JBigInt n) = int_toString n"
| "toString (JStr s) = s"
| "toString (JArr xs) = join '','' (toString_elems xs)"
| "toString (JObj kvs) = ''[object Object]''"
| "toString (JFun src) = src"
| "toString_elems [] = []"
| "toString_elems (x # xs) =
     (if x = JUndefined \<or> x = JNull then [] else toString x) # toString_elems xs"

subsection \<open>\<^verbatim>\<open>JSON.stringify\<close>\<close>

definition hex_digit :: "nat \<Rightarrow> char" where
  "hex_digit n = (if n < 10 then char_of (48 + n) else char_of (87 + n))"

text \<open>
  The escapes of a JSON string literal: the quote (code 0x22) and the backslash (0x5C)
  are escaped, the control characters have their short forms or \<^verbatim>\<open>\u00XX\<close>.
\<close>

definition json_escape :: "char \<Rightarrow> string" where
  "json_escape c =
     (if c = CHR 0x22 then [CHR 0x5C, CHR 0x22]
      else if c = CHR 0x5C then [CHR 0x5C, CHR 0x5C]
      else if c = CHR 0x08 then [CHR 0x5C, CHR ''b'']
      else if c = CHR 0x0C then [CHR 0x5C, CHR ''f'']
      else if c = CHR 0x0A then [CHR 0x5C, CHR ''n'']
      else if c = CHR 0x0D then [CHR 0x5C, CHR ''r'']
      else if c = CHR 0x09 then [CHR 0x5C, CHR ''t'']
      else if (of_char c :: nat) < 32
        then [CHR 0x5C, CHR ''u'', CHR ''0'', CHR ''0'',
              hex_digit (of_char c div 16), hex_digit (of_char c mod 16)]
      else [c])"

definition quote :: "string \<Rightarrow> string" where
  "quote s = CHR 0x22 # concat (map json_escape s) @ [CHR 0x22]"

text \<open>
  The serialisation of one value: \<open>None\<close> is JavaScript's \<^verbatim>\<open>undefined\<close>, the result for
  \<^verbatim>\<open>undefined\<close> and for functions. Such a value is written \<^verbatim>\<open>null\<close> inside an array,
  and a property holding it is left out of an object. (A BigInt makes
  \<^verbatim>\<open>JSON.stringify\<close> throw; \<open>has_bigint\<close> below finds it.)
\<close>

fun ser :: "jsval \<Rightarrow> string option"
  and ser_elems :: "jsval list \<Rightarrow> string list"
  and ser_props :: "(string \<times> jsval) list \<Rightarrow> string list" where
  "ser JUndefined = None"
| "ser JNull = Some ''null''"
| "ser (JBool b) = Some (if b then ''true'' else ''false'')"
| "ser (JNum n) = Some (int_toString n)"
| "ser (JBigInt n) = None"
| "ser (JStr s) = Some (quote s)"
| "ser (JArr xs) = Some (''['' @ join '','' (ser_elems xs) @ '']'')"
| "ser (JObj kvs) = Some (''{'' @ join '','' (ser_props kvs) @ ''}'')"
| "ser (JFun src) = None"
| "ser_elems [] = []"
| "ser_elems (x # xs) = (case ser x of None \<Rightarrow> ''null'' | Some s \<Rightarrow> s) # ser_elems xs"
| "ser_props [] = []"
| "ser_props ((k, v) # kvs) =
     (case ser v of
        None \<Rightarrow> ser_props kvs
      | Some s \<Rightarrow> (quote k @ '':'' @ s) # ser_props kvs)"

fun has_bigint :: "jsval \<Rightarrow> bool"
  and has_bigint_elems :: "jsval list \<Rightarrow> bool"
  and has_bigint_props :: "(string \<times> jsval) list \<Rightarrow> bool" where
  "has_bigint (JBigInt n) = True"
| "has_bigint (JArr xs) = has_bigint_elems xs"
| "has_bigint (JObj kvs) = has_bigint_props kvs"
| "has_bigint JUndefined = False"
| "has_bigint JNull = False"
| "has_bigint (JBool b) = False"
| "has_bigint (JNum n) = False"
| "has_bigint (JStr s) = False"
| "has_bigint (JFun src) = False"
| "has_bigint_elems [] = False"
| "has_bigint_elems (x # xs) = (has_bigint x \<or> has_bigint_elems xs)"
| "has_bigint_props [] = False"
| "has_bigint_props ((k, v) # kvs) = (has_bigint v \<or> has_bigint_props kvs)"

subsection \<open>\<^verbatim>\<open>JSON.parse\<close>\<close>

text \<open>
  A recursive-descent reader of JSON text. Every function returns the value read and the
  rest of the input, or \<open>None\<close> where \<^verbatim>\<open>JSON.parse\<close> throws a \<^verbatim>\<open>SyntaxError\<close>.
  Two kinds of JSON text lie outside the model and are refused here, where JavaScript
  reads them: a number literal with a fraction or an exponent, and a \<^verbatim>\<open>\uXXXX\<close>
  escape beyond one byte. \<^verbatim>\<open>JSON.stringify\<close> writes neither for a value of the model.
\<close>

definition is_ws :: "char \<Rightarrow> bool" where
  "is_ws c \<longleftrightarrow> c = CHR '' '' \<or> c = CHR 0x09 \<or> c = CHR 0x0A \<or> c = CHR 0x0D"

definition skip_ws :: "string \<Rightarrow> string" where
  "skip_ws = dropWhile is_ws"

definition is_digit :: "char \<Rightarrow> bool" where
  "is_digit c \<longleftrightarrow> 48 \<le> (of_char c :: nat) \<and> (of_char c :: nat) \<le> 57"

definition digits_val :: "string \<Rightarrow> nat" where
  "digits_val ds = foldl (\<lambda>a c. 10 * a + (of_char c - 48)) 0 ds"

definition parse_number :: "string \<Rightarrow> (jsval \<times> string) option" where
  "parse_number s =
     (let neg = (s \<noteq> [] \<and> hd s = CHR ''-'');
          s1 = (if neg then tl s else s);
          ds = takeWhile is_digit s1;
          r = dropWhile is_digit s1
      in if ds = [] then None
         else if hd ds = CHR ''0'' \<and> tl ds \<noteq> [] then None
         else if r \<noteq> [] \<and> hd r \<in> {CHR ''.'', CHR ''e'', CHR ''E''} then None
         else Some (JNum (if neg then - int (digits_val ds) else int (digits_val ds)), r))"

definition hex_val :: "char \<Rightarrow> nat option" where
  "hex_val c =
     (let n = (of_char c :: nat)
      in if 48 \<le> n \<and> n \<le> 57 then Some (n - 48)
         else if 97 \<le> n \<and> n \<le> 102 then Some (n - 87)
         else if 65 \<le> n \<and> n \<le> 70 then Some (n - 55)
         else None)"

definition hex4 :: "string \<Rightarrow> nat option" where
  "hex4 hs =
     (case map hex_val hs of
        [Some a, Some b, Some c, Some d] \<Rightarrow> Some (((a * 16 + b) * 16 + c) * 16 + d)
      | _ \<Rightarrow> None)"

definition unescape :: "char \<Rightarrow> char option" where
  "unescape e =
     (if e = CHR 0x22 then Some (CHR 0x22)
      else if e = CHR 0x5C then Some (CHR 0x5C)
      else if e = CHR ''/'' then Some (CHR ''/'')
      else if e = CHR ''b'' then Some (CHR 0x08)
      else if e = CHR ''f'' then Some (CHR 0x0C)
      else if e = CHR ''n'' then Some (CHR 0x0A)
      else if e = CHR ''r'' then Some (CHR 0x0D)
      else if e = CHR ''t'' then Some (CHR 0x09)
      else None)"

text \<open>The characters of a string literal, read after its opening quote.\<close>

fun parse_chars :: "string \<Rightarrow> (string \<times> string) option" where
  "parse_chars [] = None"
| "parse_chars (c # r) =
     (if c = CHR 0x22 then Some ([], r)
      else if c = CHR 0x5C then
        (case r of
           [] \<Rightarrow> None
         | e # r' \<Rightarrow>
             if e = CHR ''u'' then
               (case hex4 (take 4 r') of
                  None \<Rightarrow> None
                | Some n \<Rightarrow>
                    if n < 256 then
                      (case parse_chars (drop 4 r') of
                         None \<Rightarrow> None
                       | Some (str, t) \<Rightarrow> Some (char_of n # str, t))
                    else None)
             else
               (case unescape e of
                  None \<Rightarrow> None
                | Some ch \<Rightarrow>
                    (case parse_chars r' of
                       None \<Rightarrow> None
                     | Some (str, t) \<Rightarrow> Some (ch # str, t))))
      else if (of_char c :: nat) < 32 then None
      else (case parse_chars r of
              None \<Rightarrow> None
            | Some (str, t) \<Rightarrow> Some (c # str, t)))"

lemma parse_chars_length: "parse_chars s = Some (str, t) \<Longrightarrow> length t < length s"
  by (induction s arbitrary: str t rule: parse_chars.induct)
     (fastforce split: if_splits list.splits option.splits)+

lemma skip_ws_length: "skip_ws s = c # r \<Longrightarrow> length r < length s"
  unfolding skip_ws_def
  by (metis length_dropWhile_le length_Cons less_eq_Suc_le)

text \<open>
  The members of an object literal become its properties in the order of the text; a key
  that occurs again overwrites the value and keeps its place. (JavaScript moreover
  enumerates integer-like keys first; that reordering is not modelled.)
\<close>

definition mk_obj :: "(string \<times> jsval) list \<Rightarrow> (string \<times> jsval) list" where
  "mk_obj kvs = foldl (\<lambda>obj (k, v). AList.update k v obj) [] kvs"

text \<open>
  \<open>parse_elems\<close> reads the elements of a non-empty array up to its closing bracket,
  \<open>parse_members\<close> the members of a non-empty object up to its closing brace. The tests
  on the length of the rest are always true (\<open>parse_value_length\<close> below); they make the
  recursion visibly terminate.
\<close>

function parse_value :: "string \<Rightarrow> (jsval \<times> string) option"
  and parse_elems :: "string \<Rightarrow> (jsval list \<times> string) option"
  and parse_members :: "string \<Rightarrow> ((string \<times> jsval) list \<times> string) option" where
  "parse_value s =
     (case skip_ws s of
        [] \<Rightarrow> None
      | c # r \<Rightarrow>
          if c = CHR ''['' then
            (case skip_ws r of
               [] \<Rightarrow> None
             | c' # r' \<Rightarrow>
                 if c' = CHR '']'' then Some (JArr [], r')
                 else (case parse_elems (c' # r') of
                         None \<Rightarrow> None
                       | Some (xs, t) \<Rightarrow> Some (JArr xs, t)))
          else if c = CHR ''{'' then
            (case skip_ws r of
               [] \<Rightarrow> None
             | c' # r' \<Rightarrow>
                 if c' = CHR ''}'' then Some (JObj [], r')
                 else (case parse_members (c' # r') of
                         None \<Rightarrow> None
                       | Some (kvs, t) \<Rightarrow> Some (JObj (mk_obj kvs), t)))
          else if c = CHR 0x22 then
            (case parse_chars r of
               None \<Rightarrow> None
             | Some (str, t) \<Rightarrow> Some (JStr str, t))
          else if take 4 (c # r) = ''null'' then Some (JNull, drop 4 (c # r))
          else if take 4 (c # r) = ''true'' then Some (JBool True, drop 4 (c # r))
          else if take 5 (c # r) = ''false'' then Some (JBool False, drop 5 (c # r))
          else parse_number (c # r))"
| "parse_elems s =
     (case parse_value s of
        None \<Rightarrow> None
      | Some (v, t) \<Rightarrow>
          if length t < length s then
            (case skip_ws t of
               [] \<Rightarrow> None
             | c # r \<Rightarrow>
                 if c = CHR '','' then
                   (case parse_elems r of
                      None \<Rightarrow> None
                    | Some (vs, u) \<Rightarrow> Some (v # vs, u))
                 else if c = CHR '']'' then Some ([v], r)
                 else None)
          else None)"
| "parse_members s =
     (case skip_ws s of
        [] \<Rightarrow> None
      | c # r \<Rightarrow>
          if c = CHR 0x22 then
            (case parse_chars r of
               None \<Rightarrow> None
             | Some (k, t) \<Rightarrow>
                 (case skip_ws t of
                    [] \<Rightarrow> None
                  | c2 # r2 \<Rightarrow>
                      if c2 = CHR '':'' then
                        (case parse_value r2 of
                           None \<Rightarrow> None
                         | Some (v, u) \<Rightarrow>
                             if length u < length r2 then
                               (case skip_ws u of
                                  [] \<Rightarrow> None
                                | c3 # r3 \<Rightarrow>
                                    if c3 = CHR '','' then
                                      (case parse_members r3 of
                                         None \<Rightarrow> None
                                       | Some (kvs, w) \<Rightarrow> Some ((k, v) # kvs, w))
                                    else if c3 = CHR ''}'' then Some ([(k, v)], r3)
                                    else None)
                             else None)
                      else None))
          else None)"
  by pat_completeness auto
termination
  by (relation "measure (\<lambda>x. case x of
          Inl s \<Rightarrow> 2 * length s
        | Inr (Inl s) \<Rightarrow> 2 * length s + 1
        | Inr (Inr s) \<Rightarrow> 2 * length s + 1)")
     (auto dest!: skip_ws_length parse_chars_length)

declare parse_value.simps [simp del] parse_elems.simps [simp del] parse_members.simps [simp del]

text \<open>\<^verbatim>\<open>JSON.parse(text)\<close>: one value, with nothing but white space after it.\<close>

definition JSON_parse :: "string \<Rightarrow> jsval option" where
  "JSON_parse s =
     (case parse_value s of
        None \<Rightarrow> None
      | Some (v, t) \<Rightarrow> if skip_ws t = [] then Some v else None)"

section \<open>The store\<close>

text \<open>
  The Redis client of \<^verbatim>\<open>this.client\<close>. A key holds a string and, when it was written
  with \<^verbatim>\<open>PX\<close>, the number of milliseconds it was given to live. The cache layer sends
  five commands: \<^verbatim>\<open>GET\<close>, \<^verbatim>\<open>SET\<close>, \<^verbatim>\<open>SET ... PX ms\<close>,
  \<^verbatim>\<open>SET ... NX PX ms\<close> and \<^verbatim>\<open>DEL\<close>.
\<close>

type_synonym store = "string \<rightharpoonup> (string \<times> int option)"

datatype cmd =
    GET string
  | SET string string
  | SET_PX string string int
  | SET_NX_PX string string int
  | DEL string

datatype reply = RNil | ROk | RBulk string | RInt nat

fun exec :: "cmd \<Rightarrow> store \<Rightarrow> (string + reply) \<times> store" where
  "exec (GET k) st = (Inr (case st k of None \<Rightarrow> RNil | Some (v, px) \<Rightarrow> RBulk v), st)"
| "exec (SET k v) st = (Inr ROk, st(k \<mapsto> (v, None)))"
| "exec (SET_PX k v ms) st =
     (if ms \<le> 0 then (Inl ''ERR invalid expire time in set'', st)
      else (Inr ROk, st(k \<mapsto> (v, Some ms))))"
| "exec (SET_NX_PX k v ms) st =
     (if ms \<le> 0 then (Inl ''ERR invalid expire time in set'', st)
      else if st k = None then (Inr ROk, st(k \<mapsto> (v, Some ms)))
      else (Inr RNil, st))"
| "exec (DEL k) st = (Inr (RInt (if st k = None then 0 else 1)), st(k := None))"

text \<open>
  One call of the client: the callback receives \<^verbatim>\<open>(err, reply)\<close>. A failure of the
  connection (\<open>fault\<close>) gives \<^verbatim>\<open>err\<close> and leaves the store as it is.
\<close>

definition client :: "string option \<Rightarrow> cmd \<Rightarrow> store \<Rightarrow> (string + reply) \<times> store" where
  "client flt c st = (case flt of Some err \<Rightarrow> (Inl err, st) | None \<Rightarrow> exec c st)"

text \<open>
  What the other clients of the store do, as the commands the store runs for them; the
  expiry of a key is a \<open>DEL\<close> of it.
\<close>

fun run_world :: "cmd list \<Rightarrow> store \<Rightarrow> store" where
  "run_world [] st = st"
| "run_world (c # cs) st = run_world cs (snd (exec c st))"

text \<open>
  What a call of the cache layer does besides settling: the commands it sent with the
  answers it got, and the invocations of the caller's \<^verbatim>\<open>update\<close> function.
\<close>

datatype event = Sent cmd "string + reply" | Invoked

section \<open>The cache layer\<close>

definition defaultTimeout :: int where
  "defaultTimeout = 100"

definition defaultTTL :: int where
  "defaultTTL = 30000"

definition defaultLockTTL :: int where
  "defaultLockTTL = 1000"

text \<open>
  The errors of the two \<^verbatim>\<open>throw\<close> statements and of the rejections. \<open>ClientError\<close>
  is the client's own error passed on as it is (\<^verbatim>\<open>del\<close>), \<open>UpdateError\<close> the value the
  \<^verbatim>\<open>update\<close> function gave as \<^verbatim>\<open>err\<close>.
\<close>

datatype error =
    TypeError string
  | Error string
  | RedisError string
  | AcquireError string
  | ClientError string
  | UpdateError jsval

text \<open>
  How a call ends: it throws before it returns its promise, or the promise is rejected
  or resolved, or it is still pending when the observed events are over.
\<close>

datatype 'a outcome = Throws error | Rejected error | Resolved 'a | Pending

record coal =
  prefix :: string

definition Coal :: "string option \<Rightarrow> coal" where
  "Coal opt =
     \<lparr>prefix = (case opt of None \<Rightarrow> ''coal:'' | Some p \<Rightarrow> if p = [] then ''coal:'' else p)\<rparr>"

text \<open>
  The keys of the store: \<^verbatim>\<open>`${this.prefix}${key}`\<close> holds the cache entry and
  \<^verbatim>\<open>`${this.prefix}lock:${key}`\<close> the lock.
\<close>

definition cache_key :: "coal \<Rightarrow> jsval \<Rightarrow> string" where
  "cache_key this key = prefix this @ toString key"

definition lock_key :: "coal \<Rightarrow> jsval \<Rightarrow> string" where
  "lock_key this key = prefix this @ ''lock:'' @ toString key"

subsection \<open>The codec\<close>

text \<open>
  The conversion of \<^verbatim>\<open>value\<close> at the head of \<^verbatim>\<open>set\<close>: \<^verbatim>\<open>JSON.stringify\<close> for a value
  of type \<^verbatim>\<open>object\<close>, whose exception is thrown again as an \<^verbatim>\<open>Error\<close>, and
  \<^verbatim>\<open>toString\<close> otherwise. (For a value of type \<^verbatim>\<open>object\<close> the serialisation is
  never \<^verbatim>\<open>undefined\<close>: \<open>ser_object\<close> below.)
\<close>

definition encode :: "jsval \<Rightarrow> error + string" where
  "encode v =
     (if typeof v = ''object'' then
        (if has_bigint v then Inl (Error ''TypeError: Do not know how to serialize a BigInt'')
         else (case ser v of Some s \<Rightarrow> Inr s | None \<Rightarrow> Inr ''undefined''))
      else Inr (toString v))"

text \<open>
  The last step of \<^verbatim>\<open>get\<close>: a result that is not \<^verbatim>\<open>null\<close> and not of type
  \<^verbatim>\<open>object\<close> goes through \<^verbatim>\<open>JSON.parse\<close>, and stays as it is when that throws.
\<close>

definition decode :: "jsval \<Rightarrow> jsval" where
  "decode result =
     (if result \<noteq> JNull \<and> typeof result \<noteq> ''object'' then
        (case JSON_parse (toString result) of Some v \<Rightarrow> v | None \<Rightarrow> result)
      else result)"

subsection \<open>\<^verbatim>\<open>set\<close>\<close>

text \<open>
  \<^verbatim>\<open>ttl = ttl * 1000 || defaultTTL\<close>: an omitted \<^verbatim>\<open>ttl\<close> gives \<^verbatim>\<open>NaN\<close>, which is
  falsy, and so is zero.
\<close>

definition resolve_ttl :: "int option \<Rightarrow> int" where
  "resolve_ttl ttl =
     (case ttl of
        None \<Rightarrow> defaultTTL
      | Some t \<Rightarrow> if t * 1000 = 0 then defaultTTL else t * 1000)"

text \<open>
  \<^verbatim>\<open>timeout = timeout || ((ttl > 0) ? ttl / 10 : defaultTimeout)\<close>. The \<^verbatim>\<open>ttl\<close> here
  is a resolved one, a multiple of ten (\<open>resolve_ttl_mod\<close> below), so that the
  division is exact.
\<close>

definition resolve_timeout :: "int option \<Rightarrow> int \<Rightarrow> int" where
  "resolve_timeout timeout ttl =
     (case timeout of
        Some t \<Rightarrow> if t \<noteq> 0 then t else if ttl > 0 then ttl div 10 else defaultTimeout
      | None \<Rightarrow> if ttl > 0 then ttl div 10 else defaultTimeout)"

text \<open>
  The spin lock of \<^verbatim>\<open>set\<close> runs on the event loop: \<^verbatim>\<open>acquireLock\<close> is called once and
  then by \<^verbatim>\<open>setInterval\<close>, each call sends a conditional set, and the callbacks of the
  client run when the answers arrive, before or after later calls. What happens, in the
  order in which it happens:
  \<^item> \<open>Tick el\<close>: a call of \<^verbatim>\<open>acquireLock\<close> (the first one is the direct call), with
    the value \<open>el\<close> it computes for \<^verbatim>\<open>elapsed\<close>, the milliseconds of \<^verbatim>\<open>toFixed(4)\<close> as a
    number of ten-thousandths;
  \<^item> \<open>Answer flt\<close>: the conditional set that has waited longest is run by the store, or
    fails in the client with \<open>flt\<close>, and its callback is called;
  \<^item> \<open>Others cs\<close>: the store runs commands of other clients.
  The commands of one connection are run and answered in the order they were sent.
\<close>

datatype happening = Tick nat | Answer "string option" | Others "cmd list"

record set_env =
  happenings :: "happening list"
  write_fault :: "string option"
  del_fault :: "string option"

record lockStats =
  elapsed :: nat
  attempts :: nat

text \<open>
  The variable \<^verbatim>\<open>loop\<close>: \<^verbatim>\<open>null\<close> during the first call of \<^verbatim>\<open>acquireLock\<close>, the
  running timer after \<^verbatim>\<open>setInterval\<close>, and that timer cleared.
\<close>

datatype timer = Unset | Armed | Cleared

text \<open>
  The state of the first promise of \<^verbatim>\<open>set\<close>: the promise itself, the variables
  \<^verbatim>\<open>attempts\<close> and \<^verbatim>\<open>loop\<close>, the conditional sets sent and not yet answered (each
  with the \<^verbatim>\<open>elapsed\<close> its callback has captured), the store, and the commands answered
  so far.
\<close>

record spin =
  promise :: "lockStats outcome"
  tries :: nat
  loop :: timer
  inflight :: "nat list"
  redis :: store
  answered :: "event list"

text \<open>\<^verbatim>\<open>resolve\<close> and \<^verbatim>\<open>reject\<close>: a promise settles once.\<close>

definition settle :: "lockStats outcome \<Rightarrow> spin \<Rightarrow> spin" where
  "settle out s = (if promise s = Pending then s\<lparr>promise := out\<rparr> else s)"

text \<open>\<^verbatim>\<open>if (loop !== null) { clearInterval(loop); }\<close>\<close>

definition clearInterval :: "spin \<Rightarrow> spin" where
  "clearInterval s = (if loop s \<noteq> Unset then s\<lparr>loop := Cleared\<rparr> else s)"

text \<open>One call of \<^verbatim>\<open>acquireLock\<close>, up to the sending of the conditional set.\<close>

definition acquireLock :: "int \<Rightarrow> nat \<Rightarrow> spin \<Rightarrow> spin" where
  "acquireLock timeout el s =
     (let s1 = s\<lparr>tries := tries s + 1\<rparr>
      in if int el > timeout * 10000 then
           settle (Rejected (AcquireError ''Error while obtaining lock to cache''))
             (clearInterval s1)
         else s1\<lparr>inflight := inflight s1 @ [el]\<rparr>)"

text \<open>
  The callback of \<^verbatim>\<open>this.client.set(lock, 1, 'NX', 'PX', timeout + 500, ...)\<close>, for the
  conditional set that has waited longest.
\<close>

definition lock_callback :: "string \<Rightarrow> int \<Rightarrow> string option \<Rightarrow> spin \<Rightarrow> spin" where
  "lock_callback lock timeout flt s =
     (case inflight s of
        [] \<Rightarrow> s
      | el # waiting \<Rightarrow>
          (let nx = SET_NX_PX lock ''1'' (timeout + 500)
           in case client flt nx (redis s) of
                (Inl err, st1) \<Rightarrow>
                  settle (Rejected (RedisError err))
                    (clearInterval
                       (s\<lparr>inflight := waiting, redis := st1,
                          answered := answered s @ [Sent nx (Inl err)]\<rparr>))
              | (Inr result, st1) \<Rightarrow>
                  (let s1 = s\<lparr>inflight := waiting, redis := st1,
                               answered := answered s @ [Sent nx (Inr result)]\<rparr>
                   in if result \<noteq> RNil then
                        settle (Resolved \<lparr>elapsed = el, attempts = tries s\<rparr>)
                          (clearInterval s1)
                      else s1)))"

text \<open>
  One happening. A cleared timer does not fire. The first call of \<^verbatim>\<open>acquireLock\<close> is
  followed by \<^verbatim>\<open>loop = setInterval(acquireLock, retryDelay)\<close>, whatever the call did.
\<close>

fun spin_step :: "string \<Rightarrow> int \<Rightarrow> happening \<Rightarrow> spin \<Rightarrow> spin" where
  "spin_step lock timeout (Tick el) s =
     (case loop s of
        Unset \<Rightarrow> (acquireLock timeout el s)\<lparr>loop := Armed\<rparr>
      | Armed \<Rightarrow> acquireLock timeout el s
      | Cleared \<Rightarrow> s)"
| "spin_step lock timeout (Answer flt) s = lock_callback lock timeout flt s"
| "spin_step lock timeout (Others cs) s = s\<lparr>redis := run_world cs (redis s)\<rparr>"

text \<open>
  When the promise is resolved the timer is cleared and the next promise takes over; the
  conditional sets still waiting are run by the store before anything sent later, and
  their callbacks find the promise settled.
\<close>

definition flush :: "string \<Rightarrow> int \<Rightarrow> spin \<Rightarrow> spin" where
  "flush lock timeout s = fold (\<lambda>e. lock_callback lock timeout None) (inflight s) s"

fun spin_run :: "string \<Rightarrow> int \<Rightarrow> happening list \<Rightarrow> spin \<Rightarrow> spin" where
  "spin_run lock timeout [] s = s"
| "spin_run lock timeout (h # hs) s =
     (let s1 = spin_step lock timeout h s
      in case promise s1 of
           Resolved stats \<Rightarrow> flush lock timeout s1
         | Throws e \<Rightarrow> spin_run lock timeout hs s1
         | Rejected e \<Rightarrow> spin_run lock timeout hs s1
         | Pending \<Rightarrow> spin_run lock timeout hs s1)"

definition spin_start :: "store \<Rightarrow> spin" where
  "spin_start st =
     \<lparr>promise = Pending, tries = 0, loop = Unset, inflight = [], redis = st, answered = []\<rparr>"

text \<open>
  The first promise of \<^verbatim>\<open>set\<close>: how it ends, the store then, and the commands answered.
\<close>

definition spin_lock ::
  "string \<Rightarrow> int \<Rightarrow> happening list \<Rightarrow> store \<Rightarrow> lockStats outcome \<times> store \<times> event list" where
  "spin_lock lock timeout hs st =
     (let s = spin_run lock timeout hs (spin_start st)
      in (promise s, redis s, answered s))"

text \<open>
  The callback of \<^verbatim>\<open>.then(lockStats => ...)\<close>: the write of the cache entry, and in
  its callback \<^verbatim>\<open>cb\<close> the removal of the lock.
\<close>

definition write_and_unlock ::
  "set_env \<Rightarrow> string \<Rightarrow> string \<Rightarrow> string \<Rightarrow> int \<Rightarrow> lockStats \<Rightarrow> store
     \<Rightarrow> lockStats outcome \<times> store \<times> event list" where
  "write_and_unlock env k lock v ttl stats st =
     (let w = (if ttl > 0 then SET_PX k v ttl else SET k v)
      in case client (write_fault env) w st of
           (Inl err, st1) \<Rightarrow> (Rejected (RedisError err), st1, [Sent w (Inl err)])
         | (Inr result, st1) \<Rightarrow>
             (case client (del_fault env) (DEL lock) st1 of
                (Inl err, st2) \<Rightarrow>
                  (Rejected (RedisError err), st2,
                   [Sent w (Inr result), Sent (DEL lock) (Inl err)])
              | (Inr data, st2) \<Rightarrow>
                  (Resolved stats, st2, [Sent w (Inr result), Sent (DEL lock) (Inr data)])))"

text \<open>
  \<^verbatim>\<open>Coal.prototype.set\<close>. The result is how the call ends, the store it leaves and the
  events in their order. \<^verbatim>\<open>ttl\<close> and \<^verbatim>\<open>timeout\<close> are numbers or omitted (\<open>None\<close>).
\<close>

definition Coal_set ::
  "coal \<Rightarrow> set_env \<Rightarrow> store \<Rightarrow> jsval \<Rightarrow> jsval \<Rightarrow> int option \<Rightarrow> int option
     \<Rightarrow> lockStats outcome \<times> store \<times> event list" where
  "Coal_set this env st key val ttl timeout =
     (if typeof key \<noteq> ''string'' then
        (Throws (TypeError ''key should be a string''), st, [])
      else if typeof val = ''undefined'' then
        (Throws (TypeError ''value should be defined''), st, [])
      else
        (case encode val of
           Inl e \<Rightarrow> (Throws e, st, [])
         | Inr v \<Rightarrow>
             (let ttl' = resolve_ttl ttl;
                  timeout' = resolve_timeout timeout ttl';
                  k = cache_key this key;
                  lock = lock_key this key
              in case spin_lock lock timeout' (happenings env) st of
                   (Resolved stats, st1, tr1) \<Rightarrow>
                     (case write_and_unlock env k lock v ttl' stats st1 of
                        (out, st2, tr2) \<Rightarrow> (out, st2, tr1 @ tr2))
                 | (Throws e, st1, tr1) \<Rightarrow> (Throws e, st1, tr1)
                 | (Rejected e, st1, tr1) \<Rightarrow> (Rejected e, st1, tr1)
                 | (Pending, st1, tr1) \<Rightarrow> (Pending, st1, tr1))))"

subsection \<open>\<^verbatim>\<open>get\<close>\<close>

text \<open>
  The second argument of \<^verbatim>\<open>get\<close>: a function, known by the \<^verbatim>\<open>(err, result)\<close> it
  hands to its callback, or a number or nothing, which \<^verbatim>\<open>get\<close> takes for the
  \<^verbatim>\<open>ttl\<close>.
\<close>

datatype update_arg = Function jsval jsval | Number int | Undefined

fun is_function :: "update_arg \<Rightarrow> bool" where
  "is_function (Function err result) = True"
| "is_function (Number n) = False"
| "is_function Undefined = False"

fun as_ttl :: "update_arg \<Rightarrow> int option" where
  "as_ttl (Number n) = Some n"
| "as_ttl Undefined = None"
| "as_ttl (Function err result) = None"

fun callback_args :: "update_arg \<Rightarrow> (jsval \<times> jsval) option" where
  "callback_args (Function err result) = Some (err, result)"
| "callback_args (Number n) = None"
| "callback_args Undefined = None"

fun reply_value :: "reply \<Rightarrow> jsval" where
  "reply_value RNil = JNull"
| "reply_value ROk = JStr ''OK''"
| "reply_value (RBulk s) = JStr s"
| "reply_value (RInt n) = JNum (int n)"

record get_env =
  get_fault :: "string option"
  set_part :: set_env

text \<open>
  \<^verbatim>\<open>Coal.prototype.get\<close>. After the shuffle of the arguments \<^verbatim>\<open>update\<close> is a function
  or \<^verbatim>\<open>null\<close> (\<open>callback_args\<close> is \<open>None\<close>). On a miss with a function the
  result goes to \<^verbatim>\<open>this.set\<close>, whose promise has a handler for its success only:
  when \<^verbatim>\<open>set\<close> throws or is rejected, the promise of \<^verbatim>\<open>get\<close> never settles.
\<close>

definition Coal_get ::
  "coal \<Rightarrow> get_env \<Rightarrow> store \<Rightarrow> jsval \<Rightarrow> update_arg \<Rightarrow> int option \<Rightarrow> int option
     \<Rightarrow> jsval outcome \<times> store \<times> event list" where
  "Coal_get this env st key update ttl timeout =
     (if typeof key \<noteq> ''string'' then
        (Throws (TypeError ''key should be a string''), st, [])
      else if \<not> is_function update \<and> ttl \<noteq> None then
        (Throws (TypeError ''update should be a function''), st, [])
      else
        (let ttl1 = (if \<not> is_function update then as_ttl update else ttl);
             ttl' = resolve_ttl ttl1;
             timeout' = resolve_timeout timeout ttl';
             k = cache_key this key
         in case client (get_fault env) (GET k) st of
              (Inl err, st1) \<Rightarrow> (Rejected (RedisError err), st1, [Sent (GET k) (Inl err)])
            | (Inr rep, st1) \<Rightarrow>
                (case callback_args update of
                   Some (err, result) \<Rightarrow>
                     if reply_value rep = JNull then
                       (if truthy err then
                          (Rejected (UpdateError err), st1, [Sent (GET k) (Inr rep), Invoked])
                        else
                          (case Coal_set this (set_part env) st1 key result
                                  (Some ttl') (Some timeout') of
                             (Resolved stats, st2, tr) \<Rightarrow>
                               (Resolved (decode result), st2,
                                Sent (GET k) (Inr rep) # Invoked # tr)
                           | (Throws e, st2, tr) \<Rightarrow>
                               (Pending, st2, Sent (GET k) (Inr rep) # Invoked # tr)
                           | (Rejected e, st2, tr) \<Rightarrow>
                               (Pending, st2, Sent (GET k) (Inr rep) # Invoked # tr)
                           | (Pending, st2, tr) \<Rightarrow>
                               (Pending, st2, Sent (GET k) (Inr rep) # Invoked # tr)))
                     else (Resolved (decode (reply_value rep)), st1, [Sent (GET k) (Inr rep)])
                 | None \<Rightarrow>
                     (Resolved (decode (reply_value rep)), st1, [Sent (GET k) (Inr rep)]))))"

subsection \<open>\<^verbatim>\<open>del\<close>\<close>

text \<open>\<^verbatim>\<open>Coal.prototype.del\<close>: one \<^verbatim>\<open>DEL\<close>, whose error is passed on unwrapped.\<close>

definition Coal_del ::
  "coal \<Rightarrow> string option \<Rightarrow> store \<Rightarrow> jsval \<Rightarrow> reply outcome \<times> store \<times> event list" where
  "Coal_del this flt st key =
     (let k = cache_key this key
      in case client flt (DEL k) st of
           (Inl err, st1) \<Rightarrow> (Rejected (ClientError err), st1, [Sent (DEL k) (Inl err)])
         | (Inr data, st1) \<Rightarrow> (Resolved data, st1, [Sent (DEL k) (Inr data)]))"

section \<open>Notions for the properties\<close>

text \<open>
  The lock phase of a \<^verbatim>\<open>set\<close> call, the first promise of \<^verbatim>\<open>set\<close>, for arguments
  that passed the checks: the spin lock on the lock key with the resolved timeout.
\<close>

definition lock_phase ::
  "coal \<Rightarrow> set_env \<Rightarrow> store \<Rightarrow> jsval \<Rightarrow> int option \<Rightarrow> int option
     \<Rightarrow> lockStats outcome \<times> store \<times> event list" where
  "lock_phase this env st key ttl timeout =
     spin_lock (lock_key this key) (resolve_timeout timeout (resolve_ttl ttl))
       (happenings env) st"

text \<open>
  The call \<^verbatim>\<open>this.set(key, result, ttl, timeout)\<close> that \<^verbatim>\<open>get\<close> makes on a miss, with
  \<^verbatim>\<open>ttl\<close> and \<^verbatim>\<open>timeout\<close> as \<^verbatim>\<open>get\<close> has resolved them from its own arguments.
\<close>

definition repopulate ::
  "coal \<Rightarrow> get_env \<Rightarrow> store \<Rightarrow> jsval \<Rightarrow> jsval \<Rightarrow> int option \<Rightarrow> int option
     \<Rightarrow> lockStats outcome \<times> store \<times> event list" where
  "repopulate this env st key result ttl timeout =
     Coal_set this (set_part env) st key result (Some (resolve_ttl ttl))
       (Some (resolve_timeout timeout (resolve_ttl ttl)))"










subsection \<open>Scenarios\<close>

text \<open>
  An uncontended environment: one call of \<^verbatim>\<open>acquireLock\<close>, reading 0.0012
  milliseconds, answered at once, and a client that never fails.
\<close>

definition quiet :: set_env where
  "quiet =
     \<lparr>happenings = [Tick 12, Answer None], write_fault = None, del_fault = None\<rparr>"

text \<open>The same with a connection that breaks at the write of the cache entry.\<close>

definition broken_write :: set_env where
  "broken_write =
     \<lparr>happenings = [Tick 12, Answer None],
      write_fault = Some ''ECONNRESET'', del_fault = None\<rparr>"

text \<open>
  Three calls of \<^verbatim>\<open>acquireLock\<close>, reading 0.0012, 20 and 40 milliseconds, the first
  two answered before the next call, with nothing else happening to the store.
\<close>

definition three_ticks :: set_env where
  "three_ticks =
     \<lparr>happenings = [Tick 12, Answer None, Tick 200000, Answer None, Tick 400000],
      write_fault = None, del_fault = None\<rparr>"

text \<open>
  A slow answer: the second call of \<^verbatim>\<open>acquireLock\<close>, at 20 milliseconds, comes before
  the answer to the conditional set of the first.
\<close>

definition late_answer :: set_env where
  "late_answer =
     \<lparr>happenings = [Tick 12, Tick 200000, Answer None],
      write_fault = None, del_fault = None\<rparr>"

text \<open>
  Two calls, the holder of the lock releasing it (or the lock expiring) between them.
\<close>

definition released :: set_env where
  "released =
     \<lparr>happenings = [Tick 12, Answer None, Others [DEL ''coal:lock:a''], Tick 200000,
                    Answer None],
      write_fault = None, del_fault = None\<rparr>"

text \<open>A store where the entry and the lock of key \<^verbatim>\<open>a\<close> are both present.\<close>

definition held :: store where
  "held = [''coal:a'' \<mapsto> (''x'', None), ''coal:lock:a'' \<mapsto> (''1'', Some 3500)]"

section \<open>Auxiliary facts\<close>

lemma lock_key_neq: "lock_key this key \<noteq> cache_key this key"
  by (simp add: lock_key_def cache_key_def append_eq_append_conv2)

lemma ser_object: "typeof v = ''object'' \<Longrightarrow> ser v \<noteq> None"
  by (cases v) simp_all

lemma resolve_ttl_mod: "resolve_ttl ttl mod 10 = 0"
  by (simp add: resolve_ttl_def defaultTTL_def split: option.split)


text \<open>
  The first promise of \<^verbatim>\<open>set\<close>: a settled promise stays as it is, a pending one has
  written nothing, and after a rejection with no conditional set waiting nothing is sent
  any more.
\<close>

lemma promise_settle: "promise s \<noteq> Pending \<Longrightarrow> promise (settle out s) = promise s"
  by (simp add: settle_def)

lemma promise_clearInterval [simp]: "promise (clearInterval s) = promise s"
  by (simp add: clearInterval_def)













text \<open>\<^verbatim>\<open>set\<close> after its checks: the lock phase, then the write and the unlock.\<close>

lemma Coal_set_valid:
  assumes "typeof key = ''string''" and "typeof val \<noteq> ''undefined''" and "encode val = Inr v"
  shows "Coal_set this env st key val ttl timeout =
           (case lock_phase this env st key ttl timeout of
              (Resolved stats, st1, tr1) \<Rightarrow>
                (case write_and_unlock env (cache_key this key) (lock_key this key) v
                        (resolve_ttl ttl) stats st1 of
                   (out, st2, tr2) \<Rightarrow> (out, st2, tr1 @ tr2))
            | (Throws e, st1, tr1) \<Rightarrow> (Throws e, st1, tr1)
            | (Rejected e, st1, tr1) \<Rightarrow> (Rejected e, st1, tr1)
            | (Pending, st1, tr1) \<Rightarrow> (Pending, st1, tr1))"
  using assms by (simp add: Coal_set_def lock_phase_def Let_def)

lemma Coal_set_acquired:
  assumes "typeof key = ''string''" and "typeof val \<noteq> ''undefined''" and "encode val = Inr v"
    and "lock_phase this env st key ttl timeout = (Resolved stats, st1, tr1)"
  shows "Coal_set this env st key val ttl timeout =
           (case write_and_unlock env (cache_key this key) (lock_key this key) v
                   (resolve_ttl ttl) stats st1 of
              (out, st2, tr2) \<Rightarrow> (out, st2, tr1 @ tr2))"
  using assms by (simp add: Coal_set_valid)

lemma write_ok:
  assumes "write_fault env = None"
  shows "write_and_unlock env k lock v ttl stats st =
          (let w = (if ttl > 0 then SET_PX k v ttl else SET k v);
               st1 = st(k \<mapsto> (v, if ttl > 0 then Some ttl else None))
           in case del_fault env of
                Some err \<Rightarrow>
                  (Rejected (RedisError err), st1, [Sent w (Inr ROk), Sent (DEL lock) (Inl err)])
              | None \<Rightarrow>
                  (Resolved stats, st1(lock := None),
                   [Sent w (Inr ROk),
                    Sent (DEL lock) (Inr (RInt (if st1 lock = None then 0 else 1)))]))"
  using assms by (auto simp: write_and_unlock_def client_def Let_def split: option.splits)

lemma write_failed:
  assumes "write_fault env = Some err"
  shows "write_and_unlock env k lock v ttl stats st =
          (Rejected (RedisError err), st,
           [Sent (if ttl > 0 then SET_PX k v ttl else SET k v) (Inl err)])"
  using assms by (simp add: write_and_unlock_def client_def Let_def)

text \<open>What a resolved \<^verbatim>\<open>set\<close> has done.\<close>

lemma Coal_set_ResolvedD:
  assumes "Coal_set this env st key val ttl timeout = (Resolved stats, st2, tr)"
  shows "\<exists>v st1 tr1. encode val = Inr v
           \<and> lock_phase this env st key ttl timeout = (Resolved stats, st1, tr1)
           \<and> st2 = (st1(cache_key this key \<mapsto>
                      (v, if resolve_ttl ttl > 0 then Some (resolve_ttl ttl) else None)))
                    (lock_key this key := None)
           \<and> Sent (if resolve_ttl ttl > 0 then SET_PX (cache_key this key) v (resolve_ttl ttl)
                    else SET (cache_key this key) v) (Inr ROk) \<in> set tr"
proof -
  from assms have key: "typeof key = ''string''" and val: "typeof val \<noteq> ''undefined''"
    by (auto simp: Coal_set_def split: if_splits)
  from assms key val obtain v where enc: "encode val = Inr v"
    by (cases "encode val") (auto simp: Coal_set_def)
  obtain lout st1 tr1 where lp: "lock_phase this env st key ttl timeout = (lout, st1, tr1)"
    by (cases "lock_phase this env st key ttl timeout") auto
  obtain wout st2' tr2 where wu:
    "write_and_unlock env (cache_key this key) (lock_key this key) v (resolve_ttl ttl) stats st1
       = (wout, st2', tr2)"
    by (cases "write_and_unlock env (cache_key this key) (lock_key this key) v
                 (resolve_ttl ttl) stats st1") auto
  from assms lp have lout: "lout = Resolved stats"
    unfolding Coal_set_valid [OF key val enc]
    by (cases lout) (auto simp: write_and_unlock_def Let_def split: prod.splits sum.splits)
  from assms lp lout wu have res: "wout = Resolved stats" "st2' = st2" "tr = tr1 @ tr2"
    unfolding Coal_set_valid [OF key val enc] by simp_all
  from wu res(1) have wf: "write_fault env = None"
    by (cases "write_fault env") (auto simp: write_failed)
  from wu res(1) wf have df: "del_fault env = None"
    by (cases "del_fault env") (auto simp: write_ok Let_def)
  from wu wf df res show ?thesis
    using enc lp lout by (auto simp: write_ok Let_def)
qed

text \<open>\<^verbatim>\<open>get\<close> on a miss, with an \<^verbatim>\<open>update\<close> function that reports no error.\<close>

lemma Coal_get_miss:
  assumes "typeof key = ''string''" and "st (cache_key this key) = None"
    and "get_fault env = None" and "\<not> truthy err"
  shows "Coal_get this env st key (Function err r) ttl timeout =
           (case repopulate this env st key r ttl timeout of
              (Resolved stats, st2, tr) \<Rightarrow>
                (Resolved (decode r), st2,
                 Sent (GET (cache_key this key)) (Inr RNil) # Invoked # tr)
            | (Throws e, st2, tr) \<Rightarrow>
                (Pending, st2, Sent (GET (cache_key this key)) (Inr RNil) # Invoked # tr)
            | (Rejected e, st2, tr) \<Rightarrow>
                (Pending, st2, Sent (GET (cache_key this key)) (Inr RNil) # Invoked # tr)
            | (Pending, st2, tr) \<Rightarrow>
                (Pending, st2, Sent (GET (cache_key this key)) (Inr RNil) # Invoked # tr))"
  using assms
  by (simp add: Coal_get_def repopulate_def client_def Let_def
      split: prod.splits outcome.splits)

text \<open>The definitions a concrete run unfolds, and the texts the scenarios parse.\<close>

lemmas scenario_defs =
  Coal_set_def Coal_get_def Coal_del_def Coal_def quiet_def broken_write_def three_ticks_def
  held_def encode_def resolve_ttl_def resolve_timeout_def defaultTTL_def defaultTimeout_def
  client_def write_and_unlock_def decode_def Let_def cache_key_def lock_key_def
  lock_phase_def repopulate_def truthy_def late_answer_def released_def
  spin_lock_def spin_start_def acquireLock_def lock_callback_def settle_def clearInterval_def
  flush_def

lemma parse_123: "JSON_parse ''123'' = Some (JNum 123)"
  by code_simp

lemma parse_array: "JSON_parse ''[1]'' = Some (JArr [JNum 1])"
  by code_simp

lemma parse_x: "JSON_parse ''x'' = None"
  by code_simp

lemma parse_v: "JSON_parse ''v'' = None"
  by code_simp

lemma parse_hello: "JSON_parse ''hello'' = None"
  by code_simp

lemma encode_v: "encode (JStr ''v'') = Inr ''v''"
  by (simp add: encode_def)

subsection \<open>Two runs\<close>

text \<open>
  A \<^verbatim>\<open>set\<close> that finds the lock taken, and acquires it at its second attempt after
  the holder has released it; and a \<^verbatim>\<open>set\<close> of an object followed by the \<^verbatim>\<open>get\<close>
  of it.
\<close>

lemma retry_acquires:
  "Coal_set (Coal None) released held (JStr ''a'') (JStr ''v'') (Some 1) (Some 50) =
     (Resolved \<lparr>elapsed = 200000, attempts = 2\<rparr>,
      [''coal:a'' \<mapsto> (''v'', Some 1000)],
      [Sent (SET_NX_PX ''coal:lock:a'' ''1'' 550) (Inr RNil),
       Sent (SET_NX_PX ''coal:lock:a'' ''1'' 550) (Inr ROk),
       Sent (SET_PX ''coal:a'' ''v'' 1000) (Inr ROk),
       Sent (DEL ''coal:lock:a'') (Inr (RInt 1))])"
  by (simp add: scenario_defs fun_eq_iff)

lemma encode_object: "encode (JObj [(''n'', JNum 1)]) = Inr ''{\"n\":1}''"
  by code_simp

lemma set_then_get:
  "fst (Coal_set (Coal None) quiet Map.empty (JStr ''a'') (JObj [(''n'', JNum 1)]) (Some 1) (Some 50))
     = Resolved \<lparr>elapsed = 12, attempts = 1\<rparr>
   \<and> fst (Coal_get (Coal None) \<lparr>get_fault = None, set_part = quiet\<rparr>
          (fst (snd (Coal_set (Coal None) quiet Map.empty (JStr ''a'') (JObj [(''n'', JNum 1)])
                       (Some 1) (Some 50))))
          (JStr ''a'') Undefined None None)
     = Resolved (JObj [(''n'', JNum 1)])"
proof -
  have p: "JSON_parse ''{\"n\":1}'' = Some (JObj [(''n'', JNum 1)])" by code_simp
  have t: "typeof (JObj [(''n'', JNum 1)]) \<noteq> ''undefined''" by simp
  show ?thesis
    by (simp add: Coal_set_def Coal_get_def Coal_def quiet_def resolve_ttl_def
      resolve_timeout_def defaultTTL_def defaultTimeout_def client_def spin_lock_def
      spin_start_def acquireLock_def lock_callback_def settle_def clearInterval_def flush_def
      write_and_unlock_def decode_def Let_def cache_key_def lock_key_def encode_object p)
qed

section \<open>Reading back what \<^verbatim>\<open>JSON.stringify\<close> writes\<close>

subsection \<open>Numbers\<close>

lemma of_char_digit: "k < 10 \<Longrightarrow> of_char (char_of (48 + k :: nat)) = 48 + k"
  by simp

lemma digit_char_is_digit: "k < 10 \<Longrightarrow> is_digit (char_of (48 + k :: nat))"
  by (simp add: is_digit_def)










subsection \<open>Strings\<close>





subsection \<open>Values without parts\<close>











subsection \<open>Arrays and objects\<close>



























subsection \<open>The reader consumes its input\<close>

text \<open>
  Every successful call of the reader leaves a shorter rest: the tests on the lengths in
  \<open>parse_elems\<close> and \<open>parse_members\<close> never fail.
\<close>

lemma skip_ws_le: "length (skip_ws s) \<le> length s"
  by (simp add: skip_ws_def length_dropWhile_le)

lemma parse_number_length:
  assumes "parse_number s = Some (v, t)"
  shows "length t < length s"
proof -
  define s1 where "s1 = (if s \<noteq> [] \<and> hd s = CHR ''-'' then tl s else s)"
  from assms have ne: "takeWhile is_digit s1 \<noteq> []" and t: "t = dropWhile is_digit s1"
    by (auto simp: parse_number_def Let_def s1_def split: if_splits)
  have "length (takeWhile is_digit s1) + length (dropWhile is_digit s1) = length s1"
    by (metis length_append takeWhile_dropWhile_id)
  with ne have "length t < length s1" unfolding t by (cases "takeWhile is_digit s1") simp_all
  also have "length s1 \<le> length s" by (simp add: s1_def)
  finally show ?thesis .
qed

lemma parse_value_length:
  "parse_value s = Some (v, t) \<Longrightarrow> length t < length s"
  "parse_elems s = Some (vs, t) \<Longrightarrow> length t < length s"
  "parse_members s = Some (kvs, t) \<Longrightarrow> length t < length s"
proof (induction s and s and s arbitrary: v t and vs t and kvs t
    rule: parse_value_parse_elems_parse_members.induct)
  case (1 s)
  from "1.prems" obtain c r where sk: "skip_ws s = c # r"
    by (subst (asm) parse_value.simps) (auto split: list.splits)
  have le: "length r < length s" by (rule skip_ws_length [OF sk])
  have le': "length (c # r) \<le> length s" using skip_ws_le [of s] by (simp add: sk)
  from "1.prems" sk consider
      (arr) c' r' where "c = CHR ''[''" "skip_ws r = c' # r'" "c' = CHR '']''" "t = r'"
    | (arr') c' r' xs where "c = CHR ''[''" "skip_ws r = c' # r'" "c' \<noteq> CHR '']''"
        "parse_elems (c' # r') = Some (xs, t)"
    | (obj) c' r' where "c \<noteq> CHR ''[''" "c = CHR ''{''" "skip_ws r = c' # r'" "c' = CHR ''}''" "t = r'"
    | (obj') c' r' kvs where "c \<noteq> CHR ''[''" "c = CHR ''{''" "skip_ws r = c' # r'"
        "c' \<noteq> CHR ''}''" "parse_members (c' # r') = Some (kvs, t)"
    | (str) str where "c = CHR 0x22" "parse_chars r = Some (str, t)"
    | (lit4) "t = drop 4 (c # r)"
    | (lit5) "t = drop 5 (c # r)"
    | (num) "parse_number (c # r) = Some (v, t)"
    by (subst (asm) parse_value.simps) (auto split: list.splits if_splits option.splits)
  then show ?case
  proof cases
    case arr
    with skip_ws_length [OF arr(2)] le show ?thesis by simp
  next
    case arr'
    from "1.IH"(1) [OF sk arr'(1) arr'(2) arr'(3) arr'(4)] skip_ws_le [of r] le arr'(2)
    show ?thesis by simp
  next
    case obj
    with skip_ws_length [OF obj(3)] le show ?thesis by simp
  next
    case obj'
    from "1.IH"(2) [OF sk obj'(1) obj'(2) obj'(3) obj'(4) obj'(5)] skip_ws_le [of r] le obj'(3)
    show ?thesis by simp
  next
    case str
    from parse_chars_length [OF str(2)] le show ?thesis by simp
  next
    case lit4
    with le' show ?thesis by simp
  next
    case lit5
    with le' show ?thesis by simp
  next
    case num
    from parse_number_length [OF num] le' show ?thesis by simp
  qed
next
  case (2 s)
  from "2.prems" obtain v u where pv: "parse_value s = Some (v, u)" and lt: "length u < length s"
    by (subst (asm) parse_elems.simps) (auto split: option.splits if_splits)
  from "2.prems" pv lt obtain c r where sk: "skip_ws u = c # r"
    by (subst (asm) parse_elems.simps) (auto split: list.splits)
  from "2.prems" pv lt sk consider
      (more) ws where "c = CHR '',''" "parse_elems r = Some (ws, t)"
    | (last) "t = r"
    by (subst (asm) parse_elems.simps) (auto split: if_splits option.splits)
  then show ?case
  proof cases
    case more
    from "2.IH"(2) [OF pv refl lt sk more(1) more(2)] skip_ws_length [OF sk] lt
    show ?thesis by simp
  next
    case last
    with skip_ws_length [OF sk] lt show ?thesis by simp
  qed
next
  case (3 s)
  from "3.prems" obtain c r where sk: "skip_ws s = c # r" and c: "c = CHR 0x22"
    by (subst (asm) parse_members.simps) (auto split: list.splits if_splits)
  from "3.prems" sk c obtain k u where pc: "parse_chars r = Some (k, u)"
    by (subst (asm) parse_members.simps) (auto split: option.splits)
  from "3.prems" sk c pc obtain c2 r2 where sk2: "skip_ws u = c2 # r2" and c2: "c2 = CHR '':''"
    by (subst (asm) parse_members.simps) (auto split: list.splits if_splits)
  from "3.prems" sk c pc sk2 c2 obtain x w where pv: "parse_value r2 = Some (x, w)"
    and lt: "length w < length r2"
    by (subst (asm) parse_members.simps) (auto split: option.splits if_splits)
  from "3.prems" sk c pc sk2 c2 pv lt obtain c3 r3 where sk3: "skip_ws w = c3 # r3"
    by (subst (asm) parse_members.simps) (auto split: list.splits)
  have len: "length r3 < length s"
    using skip_ws_length [OF sk] parse_chars_length [OF pc] skip_ws_length [OF sk2] lt
      skip_ws_length [OF sk3] by simp
  from "3.prems" sk c pc sk2 c2 pv lt sk3 consider
      (more) ws where "c3 = CHR '',''" "parse_members r3 = Some (ws, t)"
    | (last) "t = r3"
    by (subst (asm) parse_members.simps) (auto split: if_splits option.splits)
  then show ?case
  proof cases
    case more
    from "3.IH"(2) [OF sk c pc refl sk2 c2 pv refl lt sk3 more(1) more(2)] len
    show ?thesis by simp
  next
    case last
    with len show ?thesis by simp
  qed
qed

section \<open>The lock\<close>

text \<open>
  Claim C1, as amended. When a \<^verbatim>\<open>set\<close> call has acquired the lock and the write of the
  cache entry succeeds, the last command the call sends before it settles is the
  \<^verbatim>\<open>DEL\<close> of the lock key; and when that \<^verbatim>\<open>DEL\<close> succeeds too, the call resolves with
  the lock statistics and the lock key is absent from the store.
\<close>

theorem lock_released_after_write:
  assumes "typeof key = ''string''" and "typeof val \<noteq> ''undefined''" and "encode val = Inr v"
    and "lock_phase this env st key ttl timeout = (Resolved stats, st1, tr1)"
    and "write_fault env = None"
    and "Coal_set this env st key val ttl timeout = (out, st2, tr)"
  shows "(\<exists>r. last tr = Sent (DEL (lock_key this key)) r)
       \<and> (del_fault env = None \<longrightarrow> out = Resolved stats \<and> st2 (lock_key this key) = None)"
  using assms(6) unfolding Coal_set_acquired [OF assms(1-4)] write_ok [OF assms(5)]
  by (auto simp: Let_def split: option.splits)

theorem lock_released_after_write_witness:
  "lock_phase (Coal None) quiet Map.empty (JStr ''a'') None None =
     (Resolved \<lparr>elapsed = 12, attempts = 1\<rparr>, [''coal:lock:a'' \<mapsto> (''1'', Some 3500)],
      [Sent (SET_NX_PX ''coal:lock:a'' ''1'' 3500) (Inr ROk)])
   \<and> (\<exists>r. last (snd (snd (Coal_set (Coal None) quiet Map.empty (JStr ''a'') (JStr ''v'')
                             None None))) = Sent (DEL ''coal:lock:a'') r)
   \<and> fst (Coal_set (Coal None) quiet Map.empty (JStr ''a'') (JStr ''v'') None None) =
       Resolved \<lparr>elapsed = 12, attempts = 1\<rparr>
   \<and> fst (snd (Coal_set (Coal None) quiet Map.empty (JStr ''a'') (JStr ''v'') None None))
       ''coal:lock:a'' = None"
proof -
  let ?r = "Coal_set (Coal None) quiet Map.empty (JStr ''a'') (JStr ''v'') None None"
  have lp: "lock_phase (Coal None) quiet Map.empty (JStr ''a'') None None =
     (Resolved \<lparr>elapsed = 12, attempts = 1\<rparr>, [''coal:lock:a'' \<mapsto> (''1'', Some 3500)],
      [Sent (SET_NX_PX ''coal:lock:a'' ''1'' 3500) (Inr ROk)])"
    by (simp add: scenario_defs)
  have wf: "write_fault quiet = None" and df: "del_fault quiet = None"
    by (simp_all add: quiet_def)
  have r: "?r = (fst ?r, fst (snd ?r), snd (snd ?r))" by simp
  from lock_released_after_write [OF _ _ encode_v lp wf r] df lp
  show ?thesis by (simp add: lock_key_def Coal_def)
qed

text \<open>
  Against claim C1 as it is written: on an empty store, with a connection that breaks
  at the write of the cache entry, \<^verbatim>\<open>set("a", "v")\<close> acquires the lock, is rejected
  with the \<^verbatim>\<open>RedisError\<close> of the write, sends no \<^verbatim>\<open>DEL\<close>, and leaves the lock key in
  the store.
\<close>

theorem failed_write_leaves_lock:
  "Coal_set (Coal None) broken_write Map.empty (JStr ''a'') (JStr ''v'') None None =
     (Rejected (RedisError ''ECONNRESET''),
      [''coal:lock:a'' \<mapsto> (''1'', Some 3500)],
      [Sent (SET_NX_PX ''coal:lock:a'' ''1'' 3500) (Inr ROk),
       Sent (SET_PX ''coal:a'' ''v'' 30000) (Inl ''ECONNRESET'')])
   \<and> fst (lock_phase (Coal None) broken_write Map.empty (JStr ''a'') None None) =
       Resolved \<lparr>elapsed = 12, attempts = 1\<rparr>"
  by (simp add: scenario_defs)




section \<open>The time to live\<close>

text \<open>
  Claim C3, as amended. For a \<^verbatim>\<open>set\<close> call that acquires the lock and whose write
  succeeds: with a negative \<^verbatim>\<open>ttl\<close> the cache entry is written by a plain \<^verbatim>\<open>SET\<close>
  and has no expiry; with no \<^verbatim>\<open>ttl\<close> it is written with the default of 30000
  milliseconds.
\<close>

theorem negative_ttl_no_expiry:
  assumes "typeof key = ''string''" and "typeof val \<noteq> ''undefined''" and "encode val = Inr v"
    and "lock_phase this env st key ttl timeout = (Resolved stats, st1, tr1)"
    and "write_fault env = None"
    and "Coal_set this env st key val ttl timeout = (out, st2, tr)"
  shows "(\<forall>t. ttl = Some t \<and> t < 0 \<longrightarrow>
            st2 (cache_key this key) = Some (v, None)
          \<and> Sent (SET (cache_key this key) v) (Inr ROk) \<in> set tr)
       \<and> (ttl = None \<longrightarrow>
            st2 (cache_key this key) = Some (v, Some 30000)
          \<and> Sent (SET_PX (cache_key this key) v 30000) (Inr ROk) \<in> set tr)"
  using assms(6) lock_key_neq [of this key]
  unfolding Coal_set_acquired [OF assms(1-4)] write_ok [OF assms(5)]
  by (auto simp: Let_def resolve_ttl_def defaultTTL_def split: option.splits)

theorem negative_ttl_no_expiry_witness:
  "fst (lock_phase (Coal None) quiet Map.empty (JStr ''a'') (Some (- 1)) None) =
     Resolved \<lparr>elapsed = 12, attempts = 1\<rparr>
   \<and> fst (snd (Coal_set (Coal None) quiet Map.empty (JStr ''a'') (JStr ''v'') (Some (- 1)) None))
        ''coal:a'' = Some (''v'', None)
   \<and> Sent (SET ''coal:a'' ''v'') (Inr ROk)
        \<in> set (snd (snd (Coal_set (Coal None) quiet Map.empty (JStr ''a'') (JStr ''v'')
                           (Some (- 1)) None)))
   \<and> fst (lock_phase (Coal None) quiet Map.empty (JStr ''a'') None None) =
     Resolved \<lparr>elapsed = 12, attempts = 1\<rparr>
   \<and> fst (snd (Coal_set (Coal None) quiet Map.empty (JStr ''a'') (JStr ''v'') None None))
        ''coal:a'' = Some (''v'', Some 30000)
   \<and> Sent (SET_PX ''coal:a'' ''v'' 30000) (Inr ROk)
        \<in> set (snd (snd (Coal_set (Coal None) quiet Map.empty (JStr ''a'') (JStr ''v'')
                           None None)))"
proof -
  let ?r = "Coal_set (Coal None) quiet Map.empty (JStr ''a'') (JStr ''v'') (Some (- 1)) None"
  let ?l = "lock_phase (Coal None) quiet Map.empty (JStr ''a'') (Some (- 1)) None"
  let ?r' = "Coal_set (Coal None) quiet Map.empty (JStr ''a'') (JStr ''v'') None None"
  let ?l' = "lock_phase (Coal None) quiet Map.empty (JStr ''a'') None None"
  have wf: "write_fault quiet = None" by (simp add: quiet_def)
  have lf: "fst ?l = Resolved \<lparr>elapsed = 12, attempts = 1\<rparr>"
    and lf': "fst ?l' = Resolved \<lparr>elapsed = 12, attempts = 1\<rparr>"
    by (simp_all add: scenario_defs)
  have lp: "?l = (Resolved \<lparr>elapsed = 12, attempts = 1\<rparr>, fst (snd ?l), snd (snd ?l))"
    and lp': "?l' = (Resolved \<lparr>elapsed = 12, attempts = 1\<rparr>, fst (snd ?l'), snd (snd ?l'))"
    using lf lf' by (metis prod.collapse)+
  have r: "?r = (fst ?r, fst (snd ?r), snd (snd ?r))"
    and r': "?r' = (fst ?r', fst (snd ?r'), snd (snd ?r'))" by simp_all
  from negative_ttl_no_expiry [OF _ _ encode_v lp wf r]
    negative_ttl_no_expiry [OF _ _ encode_v lp' wf r'] lf lf'
  show ?thesis by (simp add: cache_key_def Coal_def)
qed

text \<open>
  Against claim C3 as it is written: \<^verbatim>\<open>set("a", "v", 0)\<close> on an empty store writes
  the entry with \<^verbatim>\<open>PX 30000\<close>: zero is falsy in
  \<^verbatim>\<open>ttl * 1000 || defaultTTL\<close>, so that it gives the default and not an entry without
  expiry.
\<close>

theorem zero_ttl_gets_default_expiry:
  "fst (snd (Coal_set (Coal None) quiet Map.empty (JStr ''a'') (JStr ''v'') (Some 0) None))
      ''coal:a'' = Some (''v'', Some 30000)
   \<and> snd (snd (Coal_set (Coal None) quiet Map.empty (JStr ''a'') (JStr ''v'') (Some 0) None)) =
      [Sent (SET_NX_PX ''coal:lock:a'' ''1'' 3500) (Inr ROk),
       Sent (SET_PX ''coal:a'' ''v'' 30000) (Inr ROk),
       Sent (DEL ''coal:lock:a'') (Inr (RInt 1))]"
  by (simp add: scenario_defs)

text \<open>
  Claim C10, as amended. When \<^verbatim>\<open>get\<close> with a positive \<^verbatim>\<open>ttl\<close> repopulates the cache on a
  miss, the \<^verbatim>\<open>ttl\<close> is multiplied by 1000 in \<^verbatim>\<open>get\<close> and again in \<^verbatim>\<open>set\<close>: the entry
  is written with \<^verbatim>\<open>PX\<close> \<open>ttl * 1000000\<close>.
\<close>

theorem get_multiplies_ttl_twice:
  assumes "typeof key = ''string''" and "st (cache_key this key) = None"
    and "get_fault env = None" and "\<not> truthy err"
    and "encode r = Inr v"
    and "0 < t"
    and "Coal_get this env st key (Function err r) (Some t) timeout = (Resolved x, st', tr)"
  shows "resolve_ttl (Some (resolve_ttl (Some t))) = t * 1000000
       \<and> Sent (SET_PX (cache_key this key) v (t * 1000000)) (Inr ROk) \<in> set tr
       \<and> st' (cache_key this key) = Some (v, Some (t * 1000000))"
proof -
  have ttl2: "resolve_ttl (Some (resolve_ttl (Some t))) = t * 1000000"
    using assms(6) by (simp add: resolve_ttl_def)
  obtain sout st2 tr2 where rp:
    "repopulate this env st key r (Some t) timeout = (sout, st2, tr2)"
    by (cases "repopulate this env st key r (Some t) timeout") auto
  from assms(7) rp obtain stats where sout: "sout = Resolved stats"
    and st': "st' = st2" and tr: "tr = Sent (GET (cache_key this key)) (Inr RNil) # Invoked # tr2"
    unfolding Coal_get_miss [where st = st and this = this and key = key, OF assms(1-4)]
    by (cases sout) auto
  from rp sout
  have "Coal_set this (set_part env) st key r (Some (resolve_ttl (Some t)))
          (Some (resolve_timeout timeout (resolve_ttl (Some t)))) = (Resolved stats, st2, tr2)"
    by (simp add: repopulate_def)
  from Coal_set_ResolvedD [OF this] assms(5) assms(6) lock_key_neq [of this key]
  show ?thesis
    unfolding ttl2 st' tr by auto
qed

theorem get_multiplies_ttl_twice_witness:
  "(0::int) < 2
   \<and> fst (Coal_get (Coal None) \<lparr>get_fault = None, set_part = quiet\<rparr> Map.empty (JStr ''a'')
        (Function JNull (JStr ''v'')) (Some 2) None) = Resolved (JStr ''v'')
   \<and> Sent (SET_PX ''coal:a'' ''v'' 2000000) (Inr ROk)
        \<in> set (snd (snd (Coal_get (Coal None) \<lparr>get_fault = None, set_part = quiet\<rparr> Map.empty
             (JStr ''a'') (Function JNull (JStr ''v'')) (Some 2) None)))
   \<and> fst (snd (Coal_get (Coal None) \<lparr>get_fault = None, set_part = quiet\<rparr> Map.empty (JStr ''a'')
        (Function JNull (JStr ''v'')) (Some 2) None)) ''coal:a'' = Some (''v'', Some 2000000)"
proof -
  let ?env = "\<lparr>get_fault = None, set_part = quiet\<rparr>"
  let ?g = "Coal_get (Coal None) ?env Map.empty (JStr ''a'') (Function JNull (JStr ''v''))
              (Some 2) None"
  have gf: "fst ?g = Resolved (JStr ''v'')"
    by (simp add: scenario_defs parse_v)
  have g: "?g = (Resolved (JStr ''v''), fst (snd ?g), snd (snd ?g))"
    using gf by (metis prod.collapse)
  from get_multiplies_ttl_twice [where this = "Coal None" and key = "JStr ''a''"
      and st = Map.empty and env = ?env and err = JNull and r = "JStr ''v''" and v = "''v''"
      and t = 2 and timeout = None, OF _ _ _ _ encode_v _ g] gf
  show ?thesis by (simp add: truthy_def cache_key_def Coal_def)
qed

text \<open>
  Against claim C10 as it is written: \<^verbatim>\<open>get("a", update, -1)\<close> on a miss; the
  \<^verbatim>\<open>ttl\<close> becomes -1000 in \<^verbatim>\<open>get\<close> and -1000000 in \<^verbatim>\<open>set\<close>, which is not
  positive, and the entry is written by a plain \<^verbatim>\<open>SET\<close>, with no expiry at all.
\<close>

theorem negative_ttl_through_get_no_expiry:
  "fst (snd (Coal_get (Coal None) \<lparr>get_fault = None, set_part = quiet\<rparr> Map.empty (JStr ''a'')
          (Function JNull (JStr ''v'')) (Some (- 1)) None)) ''coal:a'' = Some (''v'', None)
   \<and> snd (snd (Coal_get (Coal None) \<lparr>get_fault = None, set_part = quiet\<rparr> Map.empty (JStr ''a'')
          (Function JNull (JStr ''v'')) (Some (- 1)) None)) =
      [Sent (GET ''coal:a'') (Inr RNil), Invoked,
       Sent (SET_NX_PX ''coal:lock:a'' ''1'' 600) (Inr ROk),
       Sent (SET ''coal:a'' ''v'') (Inr ROk),
       Sent (DEL ''coal:lock:a'') (Inr (RInt 1))]"
  by (simp add: scenario_defs)

section \<open>Reading\<close>

text \<open>
  Claim C4. When the store holds a string for the cache key and answers the \<^verbatim>\<open>GET\<close>,
  \<^verbatim>\<open>get\<close> resolves with that string decoded: parsed as JSON, or as it is when it
  does not parse. The only event of the call is the \<^verbatim>\<open>GET\<close>: the \<^verbatim>\<open>update\<close> function
  is not invoked, and nothing is written.
\<close>

theorem hit_never_recomputes:
  assumes "typeof key = ''string''"
    and "st (cache_key this key) = Some (s, px)"
    and "get_fault env = None"
    and "is_function update \<or> ttl = None"
  shows "Coal_get this env st key update ttl timeout =
           (Resolved (decode (JStr s)), st, [Sent (GET (cache_key this key)) (Inr (RBulk s))])
       \<and> Invoked \<notin> set (snd (snd (Coal_get this env st key update ttl timeout)))
       \<and> decode (JStr s) = (case JSON_parse s of Some v \<Rightarrow> v | None \<Rightarrow> JStr s)"
  using assms
  by (cases update)
     (auto simp: decode_def Coal_get_def client_def Let_def split: option.splits)

theorem hit_never_recomputes_witness:
  "held (cache_key (Coal None) (JStr ''a'')) = Some (''x'', None)
   \<and> Coal_get (Coal None) \<lparr>get_fault = None, set_part = quiet\<rparr> held (JStr ''a'')
      (Function JNull (JStr ''y'')) None None =
     (Resolved (JStr ''x''), held, [Sent (GET ''coal:a'') (Inr (RBulk ''x''))])
   \<and> Invoked \<notin> set (snd (snd (Coal_get (Coal None) \<lparr>get_fault = None, set_part = quiet\<rparr> held
        (JStr ''a'') (Function JNull (JStr ''y'')) None None)))"
proof -
  have h: "held (cache_key (Coal None) (JStr ''a'')) = Some (''x'', None)"
    by (simp add: held_def Coal_def cache_key_def)
  from hit_never_recomputes [where this = "Coal None" and key = "JStr ''a''" and st = held
      and env = "\<lparr>get_fault = None, set_part = quiet\<rparr>" and update = "Function JNull (JStr ''y'')"
      and ttl = None and timeout = None, OF _ h] h
  show ?thesis by (simp add: Coal_def cache_key_def parse_x)
qed

text \<open>
  Claim C5, as amended. On a miss, when the \<^verbatim>\<open>update\<close> function yields \<open>r\<close> without
  an error and the \<^verbatim>\<open>set\<close> that \<^verbatim>\<open>get\<close> delegates to resolves, \<^verbatim>\<open>get\<close> resolves with
  \<open>r\<close> decoded: \<open>r\<close> itself when it is \<^verbatim>\<open>null\<close>, an object or an array, or when its
  string form is not JSON text, and the value that text parses to otherwise.
\<close>

theorem miss_resolves_with_decoded_result:
  assumes "typeof key = ''string''" and "st (cache_key this key) = None"
    and "get_fault env = None" and "\<not> truthy err"
    and "repopulate this env st key r ttl timeout = (Resolved stats, st2, tr)"
  shows "fst (Coal_get this env st key (Function err r) ttl timeout) = Resolved (decode r)
       \<and> (r = JNull \<or> typeof r = ''object'' \<or> JSON_parse (toString r) = None \<longrightarrow> decode r = r)
       \<and> (\<forall>v. r \<noteq> JNull \<and> typeof r \<noteq> ''object'' \<and> JSON_parse (toString r) = Some v
              \<longrightarrow> decode r = v)"
  using assms(5)
  by (auto simp: Coal_get_miss [where st = st and this = this and key = key, OF assms(1-4)]
      decode_def)

theorem miss_resolves_with_decoded_result_witness:
  "fst (repopulate (Coal None) \<lparr>get_fault = None, set_part = quiet\<rparr> Map.empty (JStr ''a'')
        (JArr [JNum 1]) None None) = Resolved \<lparr>elapsed = 12, attempts = 1\<rparr>
   \<and> fst (Coal_get (Coal None) \<lparr>get_fault = None, set_part = quiet\<rparr> Map.empty (JStr ''a'')
        (Function JNull (JArr [JNum 1])) None None) = Resolved (JArr [JNum 1])"
proof -
  let ?env = "\<lparr>get_fault = None, set_part = quiet\<rparr>"
  let ?p = "repopulate (Coal None) ?env Map.empty (JStr ''a'') (JArr [JNum 1]) None None"
  have pf: "fst ?p = Resolved \<lparr>elapsed = 12, attempts = 1\<rparr>"
    by (simp add: scenario_defs)
  have p: "?p = (Resolved \<lparr>elapsed = 12, attempts = 1\<rparr>, fst (snd ?p), snd (snd ?p))"
    using pf by (metis prod.collapse)
  from miss_resolves_with_decoded_result [where this = "Coal None" and key = "JStr ''a''"
      and st = Map.empty and env = ?env and err = JNull and r = "JArr [JNum 1]"
      and ttl = None and timeout = None, OF _ _ _ _ p] pf
  show ?thesis by (simp add: truthy_def)
qed

text \<open>
  Against claim C5 as it is written: on a miss the \<^verbatim>\<open>update\<close> function yields the
  string \<^verbatim>\<open>"123"\<close>, and \<^verbatim>\<open>get\<close> resolves with the number 123.
\<close>

theorem recomputed_string_is_parsed:
  "fst (Coal_get (Coal None) \<lparr>get_fault = None, set_part = quiet\<rparr> Map.empty (JStr ''a'')
          (Function JNull (JStr ''123'')) None None) = Resolved (JNum 123)
   \<and> JNum 123 \<noteq> JStr ''123''"
  by (simp add: scenario_defs parse_123)

text \<open>
  Claim C7. The decode step has no way to fail: a string that does not parse is returned
  as it is, one that parses gives the parsed value, and \<^verbatim>\<open>null\<close> stays \<^verbatim>\<open>null\<close>. A
  \<^verbatim>\<open>get\<close> without an \<^verbatim>\<open>update\<close> function on a missing key resolves with \<^verbatim>\<open>null\<close>,
  having sent the \<^verbatim>\<open>GET\<close> only.
\<close>

theorem decode_never_raises:
  "(JSON_parse s = None \<longrightarrow> decode (JStr s) = JStr s)
   \<and> (\<forall>v. JSON_parse s = Some v \<longrightarrow> decode (JStr s) = v)
   \<and> decode JNull = JNull
   \<and> (typeof key = ''string'' \<and> st (cache_key this key) = None \<and> get_fault env = None
        \<and> \<not> is_function update \<and> ttl = None \<longrightarrow>
      Coal_get this env st key update ttl timeout =
        (Resolved JNull, st, [Sent (GET (cache_key this key)) (Inr RNil)]))"
  by (cases update) (auto simp: decode_def Coal_get_def client_def Let_def)

theorem decode_never_raises_witness:
  "JSON_parse ''hello'' = None \<and> decode (JStr ''hello'') = JStr ''hello''
   \<and> JSON_parse ''[1]'' = Some (JArr [JNum 1]) \<and> decode (JStr ''[1]'') = JArr [JNum 1]
   \<and> Coal_get (Coal None) \<lparr>get_fault = None, set_part = quiet\<rparr> Map.empty (JStr ''a'')
        Undefined None None = (Resolved JNull, Map.empty, [Sent (GET ''coal:a'') (Inr RNil)])"
  using decode_never_raises [where s = "''hello''" and this = "Coal None" and key = "JStr ''a''"
      and st = Map.empty and env = "\<lparr>get_fault = None, set_part = quiet\<rparr>"
      and update = Undefined and ttl = None and timeout = None]
    decode_never_raises [where s = "''[1]''" and this = "Coal None" and key = "JStr ''a''"
      and st = Map.empty and env = "\<lparr>get_fault = None, set_part = quiet\<rparr>"
      and update = Undefined and ttl = None and timeout = None] parse_hello parse_array
  by (simp add: Coal_def cache_key_def)

section \<open>Encoding and decoding\<close>




section \<open>The arguments\<close>

text \<open>
  Claim C8, as amended. A \<^verbatim>\<open>get\<close> or \<^verbatim>\<open>set\<close> whose key is not a string, and a
  \<^verbatim>\<open>set\<close> whose value is \<^verbatim>\<open>undefined\<close>, throws a \<^verbatim>\<open>TypeError\<close> before it returns:
  the store is as it was and no command has been sent.
\<close>

theorem invalid_arguments_throw:
  "(typeof key \<noteq> ''string'' \<longrightarrow>
      (\<exists>m. Coal_get this genv st key update ttl timeout = (Throws (TypeError m), st, [])))
   \<and> (typeof key \<noteq> ''string'' \<or> val = JUndefined \<longrightarrow>
      (\<exists>m. Coal_set this env st key val ttl timeout = (Throws (TypeError m), st, [])))"
  by (auto simp: Coal_get_def Coal_set_def)

theorem invalid_arguments_throw_witness:
  "(\<exists>m. Coal_get (Coal None) \<lparr>get_fault = None, set_part = quiet\<rparr> Map.empty (JNum 5)
          (Function JNull (JStr ''v'')) None None = (Throws (TypeError m), Map.empty, []))
   \<and> (\<exists>m. Coal_set (Coal None) quiet Map.empty (JStr ''a'') JUndefined None None =
          (Throws (TypeError m), Map.empty, []))"
  using invalid_arguments_throw [where key = "JNum 5" and this = "Coal None"
        and genv = "\<lparr>get_fault = None, set_part = quiet\<rparr>" and st = Map.empty
        and update = "Function JNull (JStr ''v'')" and ttl = None and timeout = None
        and val = "JStr ''v''" and env = quiet]
    invalid_arguments_throw [where key = "JStr ''a''" and this = "Coal None"
        and genv = "\<lparr>get_fault = None, set_part = quiet\<rparr>" and st = Map.empty
        and update = "Function JNull (JStr ''v'')" and ttl = None and timeout = None
        and val = JUndefined and env = quiet]
  by simp

text \<open>
  Against claim C8 as it is written: the empty string is a string, and the calls go on
  to the store with it. \<^verbatim>\<open>set("", "v")\<close> resolves after three commands, and
  \<^verbatim>\<open>get("")\<close> resolves with \<^verbatim>\<open>null\<close> after its \<^verbatim>\<open>GET\<close>.
\<close>

theorem empty_key_accepted:
  "fst (Coal_set (Coal None) quiet Map.empty (JStr '''') (JStr ''v'') None None) =
     Resolved \<lparr>elapsed = 12, attempts = 1\<rparr>
   \<and> snd (snd (Coal_set (Coal None) quiet Map.empty (JStr '''') (JStr ''v'') None None)) =
     [Sent (SET_NX_PX ''coal:lock:'' ''1'' 3500) (Inr ROk),
      Sent (SET_PX ''coal:'' ''v'' 30000) (Inr ROk),
      Sent (DEL ''coal:lock:'') (Inr (RInt 1))]
   \<and> Coal_get (Coal None) \<lparr>get_fault = None, set_part = quiet\<rparr> Map.empty (JStr '''')
        Undefined None None = (Resolved JNull, Map.empty, [Sent (GET ''coal:'') (Inr RNil)])"
  by (simp add: scenario_defs)

section \<open>Deleting\<close>

text \<open>
  Claim C9. \<^verbatim>\<open>del(key)\<close> sends one command, the \<^verbatim>\<open>DEL\<close> of the cache key. The lock
  key of the same key, and every other key of the store, is as it was. When the client
  answers, the call resolves with the count of the store, 0 for an absent entry and 1
  otherwise, and the entry is gone.
\<close>

theorem del_only_entry:
  assumes "Coal_del this flt st key = (out, st', tr)"
  shows "st' (lock_key this key) = st (lock_key this key)
       \<and> (\<forall>k'. k' \<noteq> cache_key this key \<longrightarrow> st' k' = st k')
       \<and> (\<exists>r. tr = [Sent (DEL (cache_key this key)) r])
       \<and> (flt = None \<longrightarrow>
            out = Resolved (RInt (if st (cache_key this key) = None then 0 else 1))
          \<and> st' (cache_key this key) = None)"
  using assms lock_key_neq [of this key]
  by (cases flt) (auto simp: Coal_del_def client_def Let_def)

theorem del_only_entry_witness:
  "Coal_del (Coal None) None held (JStr ''a'') =
     (Resolved (RInt 1), held(''coal:a'' := None), [Sent (DEL ''coal:a'') (Inr (RInt 1))])
   \<and> (held(''coal:a'' := None)) ''coal:lock:a'' = held ''coal:lock:a''
   \<and> held ''coal:lock:a'' = Some (''1'', Some 3500)
   \<and> (held(''coal:a'' := None)) ''coal:a'' = None"
proof -
  have run: "Coal_del (Coal None) None held (JStr ''a'') =
     (Resolved (RInt 1), held(''coal:a'' := None), [Sent (DEL ''coal:a'') (Inr (RInt 1))])"
    by (simp add: scenario_defs)
  from del_only_entry [OF run] show ?thesis
    using run by (simp add: Coal_def held_def lock_key_def cache_key_def)
qed

end
